theory Spec2Isabelle
  imports Complex_Main "HOL-Library.AList" "HOL-Library.Sublist"
begin

section \<open>The liquefaction calculator of \<^verbatim>\<open>SSSLIaCBSPT.py\<close>\<close>

text \<open>
  The program computes a liquefaction index from standard-penetration-test data
  (\<^verbatim>\<open>calculate_liquefaction_index\<close>) and maps the headers of an imported table onto four
  canonical fields (\<^verbatim>\<open>_normalize_text\<close>, \<^verbatim>\<open>_auto_identify_columns\<close>,
  \<^verbatim>\<open>preview_file\<close>).

  Numbers: \<^verbatim>\<open>intensity\<close> and \<^verbatim>\<open>depth_criteria\<close> are Python integers (\<^typ>\<open>int\<close>).
  The depths, blow counts and thicknesses are Python floats; they are modelled as
  \<^typ>\<open>real\<close>, that is with exact arithmetic and without rounding, NaN or overflow.
  The one non-finite value the source writes itself, \<^verbatim>\<open>float('inf')\<close> for the safety
  factor, is a constructor of its own.
\<close>

subsection \<open>Data\<close>

datatype py_error = KeyError | TypeError | ValueError

datatype pyfloat = Fin real | PosInf

text \<open>The layer dictionaries \<^verbatim>\<open>{"ds": .., "N": .., "di": ..}\<close>.\<close>

record layer =
  ds :: real
  N :: real
  di :: real

text \<open>
  The dictionaries appended to \<^verbatim>\<open>results\<close>: the keys of a layer and the computed
  \<^verbatim>\<open>N0\<close>, \<^verbatim>\<open>Ncr\<close>, \<^verbatim>\<open>FS\<close>, \<^verbatim>\<open>wi\<close>, \<^verbatim>\<open>contribution\<close>.
\<close>

record layer_detail = layer +
  N0 :: int
  Ncr :: real
  FS :: pyfloat
  wi :: real
  contribution :: real

text \<open>
  The argument \<^verbatim>\<open>data\<close> and the returned dictionary share the keys \<^verbatim>\<open>intensity\<close>,
  \<^verbatim>\<open>depth_criteria\<close>, \<^verbatim>\<open>dw\<close> and \<^verbatim>\<open>layers\<close>; the result adds \<^verbatim>\<open>ile\<close> and
  \<^verbatim>\<open>grade\<close>, and its layers are the detailed ones.
\<close>

record 'l site_data =
  intensity :: int
  depth_criteria :: int
  dw :: real
  layers :: "'l list"

type_synonym site_point = "layer site_data"

text \<open>The four grade strings of the source.\<close>

datatype grade = NoLiquefaction | Slight | Moderate | Severe

record result = "layer_detail site_data" +
  ile :: real
  grade :: grade

subsection \<open>The calculation\<close>

text \<open>\<^verbatim>\<open>N0_map = {7: 13, 8: 15, 9: 19}\<close>; indexing it with a missing key raises.\<close>

definition N0_map :: "int \<rightharpoonup> int" where
  "N0_map = [7 \<mapsto> 13, 8 \<mapsto> 15, 9 \<mapsto> 19]"

text \<open>Comparison \<^verbatim>\<open>FS <= 1\<close> on a float that may be infinite.\<close>

fun fs_le :: "pyfloat \<Rightarrow> real \<Rightarrow> bool" where
  "fs_le (Fin f) b = (f \<le> b)"
| "fs_le PosInf b = False"

text \<open>\<^verbatim>\<open>FS > 1\<close>.\<close>

fun fs_gt :: "pyfloat \<Rightarrow> real \<Rightarrow> bool" where
  "fs_gt (Fin f) b = (f > b)"
| "fs_gt PosInf b = True"

text \<open>\<^verbatim>\<open>max(0, 1 - FS)\<close>; \<^verbatim>\<open>1 - inf\<close> is \<^verbatim>\<open>-inf\<close>, so the maximum is 0.\<close>

fun max0_one_minus :: "pyfloat \<Rightarrow> real" where
  "max0_one_minus (Fin f) = max 0 (1 - f)"
| "max0_one_minus PosInf = 0"

text \<open>
  The body of the loop \<^verbatim>\<open>for layer in data["layers"]\<close>: the dictionary appended to
  \<^verbatim>\<open>results\<close> for one layer, with the statements in the order of the source.
\<close>

definition layer_result :: "int \<Rightarrow> real \<Rightarrow> layer \<Rightarrow> layer_detail" where
  "layer_result n0 dw' l =
     (let ds' = ds l;
          depth_factor = (if ds' \<le> dw' then 1.0 + 0.05 * (dw' - ds')
                          else 1.0 + 0.1 * (ds' - dw'));
          Ncr' = real_of_int n0 * depth_factor;
          FS' = (if Ncr' \<noteq> 0 then Fin (N l / Ncr') else PosInf);
          wi' = (if ds' \<le> 5 then 10.0
                 else if ds' \<le> 15 then 5.0
                 else if ds' \<le> 20 then 2.0
                 else 0.0);
          contribution' = (if fs_le FS' 1 then max0_one_minus FS' * di l * wi' else 0)
      in \<lparr> ds = ds', N = N l, di = di l, N0 = n0, Ncr = Ncr', FS = FS', wi = wi',
           contribution = contribution' \<rparr>)"

text \<open>The loop itself: \<^verbatim>\<open>results\<close> starts empty and grows by one entry per layer.\<close>

fun layer_loop :: "int \<Rightarrow> real \<Rightarrow> layer list \<Rightarrow> layer_detail list \<Rightarrow> layer_detail list" where
  "layer_loop n0 dw' [] results = results"
| "layer_loop n0 dw' (l # ls) results = layer_loop n0 dw' ls (results @ [layer_result n0 dw' l])"

text \<open>Python's \<^verbatim>\<open>sum\<close>: start at 0 and add the items from left to right.\<close>

definition py_sum :: "real list \<Rightarrow> real" where
  "py_sum xs = foldl (+) 0 xs"

definition calculate_liquefaction_index :: "site_point \<Rightarrow> py_error + result" where
  "calculate_liquefaction_index data =
     (case N0_map (intensity data) of
        None \<Rightarrow> Inl KeyError
      | Some n0 \<Rightarrow>
          (let dw' = dw data;
               results = layer_loop n0 dw' (layers data) [];
               ile' = py_sum (map contribution results);
               depth = depth_criteria data;
               grade' = (if ile' \<le> 0 then NoLiquefaction
                         else if depth = 15 then
                           (if ile' \<le> 5 then Slight
                            else if ile' \<le> 15 then Moderate
                            else Severe)
                         else
                           (if ile' \<le> 6 then Slight
                            else if ile' \<le> 18 then Moderate
                            else Severe))
           in Inr \<lparr> intensity = intensity data, depth_criteria = depth, dw = dw',
                    layers = results, ile = ile', grade = grade' \<rparr>))"

section \<open>The column reconciler\<close>

subsection \<open>Strings and normalisation\<close>

text \<open>
  A Python \<^verbatim>\<open>str\<close> is a sequence of Unicode code points; the regular expression of
  \<^verbatim>\<open>_normalize_text\<close> names code points up to U+9FA5, so a string is a list of
  code points. \<open>str\<close> turns an ASCII literal of the source into such a list.
\<close>

type_synonym pystr = "nat list"

definition str :: "string \<Rightarrow> pystr" where
  "str s = map of_char s"

text \<open>
  The character class \<^verbatim>\<open>[a-zA-Z0-9 U+4E00-U+9FA5]\<close>; \<^verbatim>\<open>re.sub\<close> with its
  negation deletes every other character.
\<close>

definition keep_char :: "nat \<Rightarrow> bool" where
  "keep_char c \<longleftrightarrow>
     (97 \<le> c \<and> c \<le> 122) \<or> (65 \<le> c \<and> c \<le> 90) \<or> (48 \<le> c \<and> c \<le> 57) \<or>
     (0x4e00 \<le> c \<and> c \<le> 0x9fa5)"

text \<open>
  \<^verbatim>\<open>str.lower\<close> on the characters that survive the deletion: the letters A to Z move to
  a to z; digits, small letters and the ideographs of U+4E00 to U+9FA5 have no other
  lower-case form.
\<close>

definition lower_char :: "nat \<Rightarrow> nat" where
  "lower_char c = (if 65 \<le> c \<and> c \<le> 90 then c + 32 else c)"

definition normalize_text :: "pystr \<Rightarrow> pystr" where
  "normalize_text text =
     (if text = [] then []
      else (let normalized = filter keep_char text in map lower_char normalized))"

subsection \<open>The alias table and the matching\<close>

text \<open>
  \<^verbatim>\<open>self.column_mapping\<close>, a dictionary literal; its items are visited in the order
  written, so it is an association list.
\<close>

definition column_mapping :: "(pystr \<times> pystr list) list" where
  "column_mapping =
     [(str ''Point ID'',
         [str ''Point ID'', str ''Point No'', str ''Measurement Point ID'', str ''ID'',
          str ''Point Number'']),
      (str ''Saturated soil depth ds(m)'',
         [str ''Saturated soil depth ds(m)'', str ''Saturated depth(m)'', str ''ds'',
          str ''Saturated depth'', str ''Soil depth ds'', str ''Depth ds'']),
      (str ''Measured N-value'',
         [str ''Measured N-value'', str ''N-value'', str ''Measured penetration value'',
          str ''Standard penetration N'', str ''N'', str ''Blow count N'']),
      (str ''Layer thickness di(m)'',
         [str ''Layer thickness di(m)'', str ''Thickness di(m)'', str ''Soil layer thickness'',
          str ''di'', str ''Thickness(m)'', str ''Layer thickness di''])]"

text \<open>
  \<^verbatim>\<open>{self._normalize_text(col): col for col in columns}\<close>: a dictionary keeps a key at
  the place of its first insertion and stores the value of the last one, which is what
  \<^const>\<open>AList.update\<close> does on an association list.
\<close>

definition normalized_columns :: "pystr list \<Rightarrow> (pystr \<times> pystr) list" where
  "normalized_columns columns =
     foldl (\<lambda>d col. AList.update (normalize_text col) col d) [] columns"

text \<open>Truth value of \<^verbatim>\<open>not best_match\<close>: \<^verbatim>\<open>None\<close> and the empty string are false.\<close>

definition py_not :: "pystr option \<Rightarrow> bool" where
  "py_not v \<longleftrightarrow> v = None \<or> v = Some []"

text \<open>Step 2, the loop over the aliases, left at the first alias that is a key.\<close>

fun match_aliases :: "(pystr \<times> pystr) list \<Rightarrow> pystr list \<Rightarrow> pystr option" where
  "match_aliases nc [] = None"
| "match_aliases nc (alias # aliases) =
     (let alias_normalized = normalize_text alias
      in case map_of nc alias_normalized of
           Some col \<Rightarrow> Some col
         | None \<Rightarrow> match_aliases nc aliases)"

text \<open>
  Step 3, the loop over the items of \<^verbatim>\<open>normalized_columns\<close>, left at the first item
  whose key contains the normalised standard name or a normalised alias
  (\<^verbatim>\<open>x in y\<close> on strings is \<^const>\<open>sublist\<close>).
\<close>

fun match_fuzzy :: "pystr \<Rightarrow> pystr list \<Rightarrow> (pystr \<times> pystr) list \<Rightarrow> pystr option" where
  "match_fuzzy std_normalized aliases [] = None"
| "match_fuzzy std_normalized aliases ((norm_col, orig_col) # items) =
     (if sublist std_normalized norm_col \<or>
         list_ex (\<lambda>a. sublist (normalize_text a) norm_col) aliases
      then Some orig_col
      else match_fuzzy std_normalized aliases items)"

text \<open>The body of the loop over the standard columns: the value of \<^verbatim>\<open>best_match\<close>.\<close>

definition best_match :: "(pystr \<times> pystr) list \<Rightarrow> pystr \<Rightarrow> pystr list \<Rightarrow> pystr option" where
  "best_match nc std_col aliases =
     (let std_normalized = normalize_text std_col
      in case map_of nc std_normalized of
           Some col \<Rightarrow> Some col
         | None \<Rightarrow>
             (let by_alias = match_aliases nc aliases
              in if py_not by_alias
                 then (case match_fuzzy std_normalized aliases nc of
                         Some col \<Rightarrow> Some col
                       | None \<Rightarrow> by_alias)
                 else by_alias))"

text \<open>
  \<^verbatim>\<open>_auto_identify_columns\<close>: one entry per standard column, in the order of
  \<^const>\<open>column_mapping\<close> (whose keys are distinct); the value \<^verbatim>\<open>None\<close> is \<^const>\<open>None\<close>.
\<close>

definition auto_identify_columns :: "pystr list \<Rightarrow> (pystr \<times> pystr option) list" where
  "auto_identify_columns columns =
     (let nc = normalized_columns columns
      in map (\<lambda>(std_col, aliases). (std_col, best_match nc std_col aliases)) column_mapping)"

subsection \<open>The matching rules as the specification words them\<close>

text \<open>
  For comparison with \<^const>\<open>auto_identify_columns\<close>: per field, the first header whose
  normalised form equals the normalised canonical name; else, for the first alias that
  equals some normalised header, that header; else the first header, in the order of the
  table, whose normalised form contains the normalised canonical name or a normalised
  alias; else nothing.
\<close>

fun spec_alias_match :: "pystr list \<Rightarrow> pystr list \<Rightarrow> pystr option" where
  "spec_alias_match headers [] = None"
| "spec_alias_match headers (a # as) =
     (case List.find (\<lambda>h. normalize_text h = normalize_text a) headers of
        Some h \<Rightarrow> Some h
      | None \<Rightarrow> spec_alias_match headers as)"

definition spec_fuzzy :: "pystr \<Rightarrow> pystr list \<Rightarrow> pystr \<Rightarrow> bool" where
  "spec_fuzzy std aliases h \<longleftrightarrow>
     sublist (normalize_text std) (normalize_text h) \<or>
     list_ex (\<lambda>a. sublist (normalize_text a) (normalize_text h)) aliases"

definition spec_match :: "pystr list \<Rightarrow> pystr \<Rightarrow> pystr list \<Rightarrow> pystr option" where
  "spec_match headers std aliases =
     (case List.find (\<lambda>h. normalize_text h = normalize_text std) headers of
        Some h \<Rightarrow> Some h
      | None \<Rightarrow>
          (case spec_alias_match headers aliases of
             Some h \<Rightarrow> Some h
           | None \<Rightarrow> List.find (spec_fuzzy std aliases) headers))"

text \<open>The last header of the table with the same normalised form as \<open>h\<close>.\<close>

definition last_alike :: "pystr list \<Rightarrow> pystr \<Rightarrow> pystr" where
  "last_alike headers h = last (filter (\<lambda>c. normalize_text c = normalize_text h) headers)"

subsection \<open>Previewing an imported table\<close>

text \<open>
  \<^verbatim>\<open>preview_file\<close> reads a table with pandas, identifies its columns, shows
  statistics and, when no standard column is missing, groups the rows by point.
  What it leaves behind is \<^verbatim>\<open>self.current_column_mapping\<close>,
  \<^verbatim>\<open>self.imported_points\<close> and at most one message box.

  The table is taken as read. pandas and the widgets are outside the program: the
  statistics display \<^verbatim>\<open>_update_data_stats\<close> enters as the exception it raises, if
  any (it formats minima and means of the identified columns: the mean of a column of
  text raises \<^verbatim>\<open>TypeError\<close>, formatting a minimum that is text with
  \<^verbatim>\<open>.2f\<close> raises \<^verbatim>\<open>ValueError\<close>), and \<^verbatim>\<open>df.groupby\<close> enters as the function \<open>groupby\<close> from the
  point column to the dictionary of groups. The last case of the definition stands
  for a failing lookup of \<^verbatim>\<open>"Point ID"\<close> in a mapping without missing columns;
  the mapping has an entry for each standard column, so it does not occur.
\<close>

datatype message = Warning pystr | Error py_error

record 'g import_state =
  current_column_mapping :: "(pystr \<times> pystr option) list"
  imported_points :: "(pystr \<times> 'g) list"
  shown :: "message option"

text \<open>\<^verbatim>\<open>sep.join(items)\<close>.\<close>

fun py_join :: "pystr \<Rightarrow> pystr list \<Rightarrow> pystr" where
  "py_join sep [] = []"
| "py_join sep [x] = x"
| "py_join sep (x # y # ys) = x @ sep @ py_join sep (y # ys)"

definition missing_columns :: "(pystr \<times> pystr option) list \<Rightarrow> pystr list" where
  "missing_columns mapping = map fst (filter (\<lambda>(col, val). py_not val) mapping)"

definition warning_text :: "pystr list \<Rightarrow> pystr" where
  "warning_text missing =
     str ''The following required columns were not identified, please check the table:''
     @ [10] @ py_join (str '', '') missing"

definition preview_file ::
  "((pystr \<times> pystr option) list \<Rightarrow> py_error option) \<Rightarrow> (pystr \<Rightarrow> (pystr \<times> 'g) list) \<Rightarrow>
   pystr list \<Rightarrow> 'g import_state" where
  "preview_file update_data_stats groupby columns =
     (let mapping = auto_identify_columns columns
      in case update_data_stats mapping of
           Some e \<Rightarrow>
             \<lparr> current_column_mapping = mapping, imported_points = [], shown = Some (Error e) \<rparr>
         | None \<Rightarrow>
             (let missing = missing_columns mapping
              in if missing \<noteq> []
                 then \<lparr> current_column_mapping = mapping, imported_points = [],
                        shown = Some (Warning (warning_text missing)) \<rparr>
                 else (case map_of mapping (str ''Point ID'') of
                         Some (Some point_col) \<Rightarrow>
                           \<lparr> current_column_mapping = mapping,
                             imported_points = groupby point_col, shown = None \<rparr>
                       | _ \<Rightarrow>
                           \<lparr> current_column_mapping = mapping, imported_points = [],
                             shown = Some (Error KeyError) \<rparr>)))"

section \<open>Properties of the calculator\<close>

subsection \<open>The loop and the sum\<close>

lemma layer_loop_map:
  "layer_loop n0 w ls acc = acc @ map (layer_result n0 w) ls"
  by (induction ls arbitrary: acc) simp_all

lemma py_sum_sum_list: "py_sum xs = sum_list xs"
proof -
  have "foldl (+) a xs = a + sum_list xs" for a :: real
    by (induction xs arbitrary: a) simp_all
  then show ?thesis by (simp add: py_sum_def)
qed

lemma N0_map_cases:
  "N0_map i = (if i = 7 then Some 13 else if i = 8 then Some 15 else if i = 9 then Some 19 else None)"
  by (simp add: N0_map_def)

subsection \<open>The result in closed form\<close>

lemma calc_Inr:
  assumes "N0_map (intensity d) = Some n0"
  shows "calculate_liquefaction_index d =
     Inr \<lparr> intensity = intensity d, depth_criteria = depth_criteria d, dw = dw d,
           layers = map (layer_result n0 (dw d)) (layers d),
           ile = sum_list (map (contribution \<circ> layer_result n0 (dw d)) (layers d)),
           grade = (let x = sum_list (map (contribution \<circ> layer_result n0 (dw d)) (layers d)) in
                    if x \<le> 0 then NoLiquefaction
                    else if depth_criteria d = 15 then
                      (if x \<le> 5 then Slight else if x \<le> 15 then Moderate else Severe)
                    else (if x \<le> 6 then Slight else if x \<le> 18 then Moderate else Severe)) \<rparr>"
  using assms
  by (simp add: calculate_liquefaction_index_def layer_loop_map py_sum_sum_list Let_def)

lemma N0_map_Some: "i \<in> {7, 8, 9} \<Longrightarrow> \<exists>n0. N0_map i = Some n0 \<and> n0 = (if i = 7 then 13 else if i = 8 then 15 else 19)"
  by (auto simp: N0_map_cases)

lemma N0_map_None: "i \<notin> {7, 8, 9} \<Longrightarrow> N0_map i = None"
  by (auto simp: N0_map_cases)

lemma depth_factor_ge_1:
  "1 \<le> (if a \<le> w then 1.0 + 0.05 * (w - a) else 1.0 + 0.1 * (a - w :: real))"
  by auto

lemma Ncr_layer_result:
  "Ncr (layer_result n0 w l) = real_of_int n0 * (if ds l \<le> w then 1.0 + 0.05 * (w - ds l) else 1.0 + 0.1 * (ds l - w))"
  by (simp add: layer_result_def Let_def)

lemma wi_layer_result:
  "wi (layer_result n0 w l) = (if ds l \<le> 5 then 10 else if ds l \<le> 15 then 5 else if ds l \<le> 20 then 2 else 0)"
  by (simp add: layer_result_def Let_def)

lemma FS_layer_result:
  "FS (layer_result n0 w l) = (if Ncr (layer_result n0 w l) \<noteq> 0 then Fin (N l / Ncr (layer_result n0 w l)) else PosInf)"
  by (simp add: layer_result_def Let_def)

lemma contribution_layer_result:
  "contribution (layer_result n0 w l) =
   (if fs_le (FS (layer_result n0 w l)) 1 then max0_one_minus (FS (layer_result n0 w l)) * di l * wi (layer_result n0 w l) else 0)"
  by (simp add: layer_result_def Let_def)

lemma fields_layer_result:
  "ds (layer_result n0 w l) = ds l" "N (layer_result n0 w l) = N l" "di (layer_result n0 w l) = di l"
  "N0 (layer_result n0 w l) = n0"
  by (simp_all add: layer_result_def Let_def)

text \<open>
  Claim C1. Whenever the intensity is 7, 8 or 9 the calculation returns a result with one
  detail per layer, in order; in each, \<open>N0\<close> is the entry of the table
  \<open>{7: 13, 8: 15, 9: 19}\<close> for the intensity and \<open>Ncr = N0 * depthFactor\<close>, where
  the depth factor is \<open>1.0 + 0.05 * (dw - ds)\<close> if \<open>ds \<le> dw\<close> and
  \<open>1.0 + 0.1 * (ds - dw)\<close> otherwise.
\<close>

theorem critical_blow_count:
  assumes "intensity d \<in> {7, 8, 9}"
  shows "\<exists>r. calculate_liquefaction_index d = Inr r \<and> length (layers r) = length (layers d) \<and>
     (\<forall>i < length (layers d).
        N0_map (intensity d) = Some (N0 (layers r ! i)) \<and>
        N0 (layers r ! i) = (if intensity d = 7 then 13 else if intensity d = 8 then 15 else 19) \<and>
        ds (layers r ! i) = ds (layers d ! i) \<and>
        Ncr (layers r ! i) = real_of_int (N0 (layers r ! i)) *
          (if ds (layers d ! i) \<le> dw d then 1.0 + 0.05 * (dw d - ds (layers d ! i))
           else 1.0 + 0.1 * (ds (layers d ! i) - dw d)))"
proof -
  from assms obtain n0 where n0: "N0_map (intensity d) = Some n0"
    and tab: "n0 = (if intensity d = 7 then 13 else if intensity d = 8 then 15 else 19)"
    using N0_map_Some by blast
  from tab show ?thesis
    by (simp add: calc_Inr [OF n0] n0 Ncr_layer_result fields_layer_result)
qed

theorem critical_blow_count_witness:
  "\<exists>r. calculate_liquefaction_index
      \<lparr> intensity = 7, depth_criteria = 15, dw = 2, layers = [\<lparr> ds = 1.5, N = 12, di = 3 \<rparr>] \<rparr> = Inr r
    \<and> N0 (layers r ! 0) = 13 \<and> Ncr (layers r ! 0) = 13.325"
  using critical_blow_count [of "\<lparr> intensity = 7, depth_criteria = 15, dw = 2, layers = [\<lparr> ds = 1.5, N = 12, di = 3 \<rparr>] \<rparr>"]
  by (auto simp: N0_map_cases)

subsection \<open>Contributions and the index\<close>

lemma contribution_cases:
  "(case FS (layer_result n0 w l) of
      Fin f \<Rightarrow> contribution (layer_result n0 w l) =
        (if f \<le> 1 then max 0 (1 - f) * di (layer_result n0 w l) * wi (layer_result n0 w l) else 0)
    | PosInf \<Rightarrow> contribution (layer_result n0 w l) = 0) \<and>
   (fs_gt (FS (layer_result n0 w l)) 1 \<longrightarrow> contribution (layer_result n0 w l) = 0)"
  by (cases "FS (layer_result n0 w l)") (simp_all add: contribution_layer_result fields_layer_result)

text \<open>
  Claim C2. In every detail of a result, the contribution is
  \<open>max(0, 1 - FS) * di * wi\<close> when \<open>FS \<le> 1\<close> and 0 when \<open>FS > 1\<close> (an infinite
  safety factor included), whatever the weight and the thickness.
\<close>

theorem layer_contribution:
  assumes "intensity d \<in> {7, 8, 9}"
  shows "\<exists>r. calculate_liquefaction_index d = Inr r \<and> length (layers r) = length (layers d) \<and>
     (\<forall>i < length (layers d).
        di (layers r ! i) = di (layers d ! i) \<and>
        (case FS (layers r ! i) of
           Fin f \<Rightarrow> contribution (layers r ! i) =
             (if f \<le> 1 then max 0 (1 - f) * di (layers r ! i) * wi (layers r ! i) else 0)
         | PosInf \<Rightarrow> contribution (layers r ! i) = 0) \<and>
        (fs_gt (FS (layers r ! i)) 1 \<longrightarrow> contribution (layers r ! i) = 0))"
proof -
  from assms obtain n0 where n0: "N0_map (intensity d) = Some n0"
    using N0_map_Some by blast
  define r where "r = projr (calculate_liquefaction_index d)"
  have r: "calculate_liquefaction_index d = Inr r"
    and lr: "layers r = map (layer_result n0 (dw d)) (layers d)"
    by (simp_all add: r_def calc_Inr [OF n0])
  show ?thesis
  proof (intro exI [of _ r] conjI allI impI)
    show "calculate_liquefaction_index d = Inr r" by (rule r)
    show "length (layers r) = length (layers d)" by (simp add: lr)
  next
    fix i assume i: "i < length (layers d)"
    then have nth: "layers r ! i = layer_result n0 (dw d) (layers d ! i)"
      by (simp add: lr)
    show "di (layers r ! i) = di (layers d ! i)"
      by (simp add: nth fields_layer_result)
    show "case FS (layers r ! i) of
           Fin f \<Rightarrow> contribution (layers r ! i) =
             (if f \<le> 1 then max 0 (1 - f) * di (layers r ! i) * wi (layers r ! i) else 0)
         | PosInf \<Rightarrow> contribution (layers r ! i) = 0"
      unfolding nth using contribution_cases [of n0 "dw d" "layers d ! i"] by (rule conjunct1)
    show "contribution (layers r ! i) = 0" if "fs_gt (FS (layers r ! i)) 1"
      using that contribution_cases [of n0 "dw d" "layers d ! i"] unfolding nth by blast
  qed
qed

theorem layer_contribution_witness:
  "\<exists>r. calculate_liquefaction_index
      \<lparr> intensity = 7, depth_criteria = 15, dw = 2,
        layers = [\<lparr> ds = 2, N = 26, di = 3 \<rparr>, \<lparr> ds = 2, N = 0, di = 3 \<rparr>] \<rparr> = Inr r
    \<and> FS (layers r ! 0) = Fin 2 \<and> contribution (layers r ! 0) = 0
    \<and> FS (layers r ! 1) = Fin 0 \<and> contribution (layers r ! 1) = 30"
  using layer_contribution [of "\<lparr> intensity = 7, depth_criteria = 15, dw = 2,
        layers = [\<lparr> ds = 2, N = 26, di = 3 \<rparr>, \<lparr> ds = 2, N = 0, di = 3 \<rparr>] \<rparr>"]
  by (auto simp: calc_Inr N0_map_cases layer_result_def)




subsection \<open>Grades\<close>

lemma calc_grade:
  assumes "N0_map (intensity d) = Some n0"
  shows "\<exists>r. calculate_liquefaction_index d = Inr r \<and>
     depth_criteria r = depth_criteria d \<and>
     layers r = map (layer_result n0 (dw d)) (layers d) \<and>
     grade r = (if ile r \<le> 0 then NoLiquefaction
                else if depth_criteria d = 15 then
                  (if ile r \<le> 5 then Slight else if ile r \<le> 15 then Moderate else Severe)
                else (if ile r \<le> 6 then Slight else if ile r \<le> 18 then Moderate else Severe))"
  by (simp add: calc_Inr [OF assms] Let_def)

lemma calc_Inr_iff: "(\<exists>r. calculate_liquefaction_index d = Inr r) \<longleftrightarrow> intensity d \<in> {7, 8, 9}"
  by (auto simp: calculate_liquefaction_index_def N0_map_cases Let_def)

text \<open>
  Claim C4. The grade depends on the index and the depth criterion alone: two results
  with the same index and depth criterion have the same grade. An index of at most 0
  gives "No liquefaction" for every depth criterion; for 15 the bands are
  \<open>(0, 5]\<close> Slight, \<open>(5, 15]\<close> Moderate, above 15 Severe; for 20 they are
  \<open>(0, 6]\<close>, \<open>(6, 18]\<close>, above 18. Each threshold belongs to the lower grade.
\<close>

theorem grade_classification:
  assumes "intensity d \<in> {7, 8, 9}"
  shows "\<exists>r. calculate_liquefaction_index d = Inr r \<and>
     (ile r \<le> 0 \<longrightarrow> grade r = NoLiquefaction) \<and>
     (depth_criteria d = 15 \<longrightarrow>
        (0 < ile r \<and> ile r \<le> 5 \<longrightarrow> grade r = Slight) \<and>
        (5 < ile r \<and> ile r \<le> 15 \<longrightarrow> grade r = Moderate) \<and>
        (15 < ile r \<longrightarrow> grade r = Severe)) \<and>
     (depth_criteria d = 20 \<longrightarrow>
        (0 < ile r \<and> ile r \<le> 6 \<longrightarrow> grade r = Slight) \<and>
        (6 < ile r \<and> ile r \<le> 18 \<longrightarrow> grade r = Moderate) \<and>
        (18 < ile r \<longrightarrow> grade r = Severe)) \<and>
     (\<forall>d' r'. calculate_liquefaction_index d' = Inr r' \<and> ile r' = ile r \<and>
        depth_criteria d' = depth_criteria d \<longrightarrow> grade r' = grade r)"
proof -
  from assms obtain n0 where n0: "N0_map (intensity d) = Some n0"
    using N0_map_Some by blast
  from calc_grade [OF n0] obtain r where r: "calculate_liquefaction_index d = Inr r"
    and g: "grade r = (if ile r \<le> 0 then NoLiquefaction
                else if depth_criteria d = 15 then
                  (if ile r \<le> 5 then Slight else if ile r \<le> 15 then Moderate else Severe)
                else (if ile r \<le> 6 then Slight else if ile r \<le> 18 then Moderate else Severe))"
    by blast
  have pure: "grade r' = grade r"
    if "calculate_liquefaction_index d' = Inr r'" "ile r' = ile r"
       "depth_criteria d' = depth_criteria d" for d' r'
  proof -
    from that(1) have "intensity d' \<in> {7, 8, 9}" using calc_Inr_iff by blast
    then obtain m where "N0_map (intensity d') = Some m" using N0_map_Some by blast
    from calc_grade [OF this] that(1) have "grade r' = (if ile r' \<le> 0 then NoLiquefaction
                else if depth_criteria d' = 15 then
                  (if ile r' \<le> 5 then Slight else if ile r' \<le> 15 then Moderate else Severe)
                else (if ile r' \<le> 6 then Slight else if ile r' \<le> 18 then Moderate else Severe))"
      by auto
    with g that(2,3) show ?thesis by simp
  qed
  have bands: "(ile r \<le> 0 \<longrightarrow> grade r = NoLiquefaction) \<and>
     (depth_criteria d = 15 \<longrightarrow>
        (0 < ile r \<and> ile r \<le> 5 \<longrightarrow> grade r = Slight) \<and>
        (5 < ile r \<and> ile r \<le> 15 \<longrightarrow> grade r = Moderate) \<and>
        (15 < ile r \<longrightarrow> grade r = Severe)) \<and>
     (depth_criteria d = 20 \<longrightarrow>
        (0 < ile r \<and> ile r \<le> 6 \<longrightarrow> grade r = Slight) \<and>
        (6 < ile r \<and> ile r \<le> 18 \<longrightarrow> grade r = Moderate) \<and>
        (18 < ile r \<longrightarrow> grade r = Severe))"
    by (simp add: g)
  from r bands pure show ?thesis by blast
qed

theorem grade_classification_witness:
  "(\<exists>r. calculate_liquefaction_index
      \<lparr> intensity = 7, depth_criteria = 15, dw = 2, layers = [\<lparr> ds = 2, N = 0, di = 0.5 \<rparr>] \<rparr> = Inr r
    \<and> ile r = 5 \<and> grade r = Slight) \<and>
   (\<exists>r. calculate_liquefaction_index
      \<lparr> intensity = 7, depth_criteria = 15, dw = 2, layers = [\<lparr> ds = 2, N = 0, di = 0.6 \<rparr>] \<rparr> = Inr r
    \<and> ile r = 6 \<and> grade r = Moderate) \<and>
   (\<exists>r. calculate_liquefaction_index
      \<lparr> intensity = 7, depth_criteria = 20, dw = 2, layers = [\<lparr> ds = 2, N = 0, di = 0.6 \<rparr>] \<rparr> = Inr r
    \<and> ile r = 6 \<and> grade r = Slight) \<and>
   (\<exists>r. calculate_liquefaction_index
      \<lparr> intensity = 7, depth_criteria = 20, dw = 2, layers = [\<lparr> ds = 2, N = 0, di = 1.9 \<rparr>] \<rparr> = Inr r
    \<and> ile r = 19 \<and> grade r = Severe) \<and>
   (\<exists>r. calculate_liquefaction_index
      \<lparr> intensity = 7, depth_criteria = 20, dw = 2, layers = [\<lparr> ds = 2, N = 13, di = 3 \<rparr>] \<rparr> = Inr r
    \<and> ile r = 0 \<and> grade r = NoLiquefaction)"
  using grade_classification [of "\<lparr> intensity = 7, depth_criteria = 15, dw = 2,
        layers = [\<lparr> ds = 2, N = 0, di = 0.5 \<rparr>] \<rparr>"]
    grade_classification [of "\<lparr> intensity = 7, depth_criteria = 15, dw = 2,
        layers = [\<lparr> ds = 2, N = 0, di = 0.6 \<rparr>] \<rparr>"]
    grade_classification [of "\<lparr> intensity = 7, depth_criteria = 20, dw = 2,
        layers = [\<lparr> ds = 2, N = 0, di = 0.6 \<rparr>] \<rparr>"]
    grade_classification [of "\<lparr> intensity = 7, depth_criteria = 20, dw = 2,
        layers = [\<lparr> ds = 2, N = 0, di = 1.9 \<rparr>] \<rparr>"]
    grade_classification [of "\<lparr> intensity = 7, depth_criteria = 20, dw = 2,
        layers = [\<lparr> ds = 2, N = 13, di = 3 \<rparr>] \<rparr>"]
  by (simp add: calc_Inr N0_map_cases layer_result_def)

subsection \<open>Depth weights and safety factors\<close>

text \<open>
  Claim C5. The weight of a layer is a step function of its depth: 10 for
  \<open>ds \<le> 5\<close>, 5 for \<open>5 < ds \<le> 15\<close>, 2 for \<open>15 < ds \<le> 20\<close>, 0 above 20; the depths
  5, 15 and 20 themselves take 10, 5 and 2.
\<close>

theorem depth_weight:
  assumes "intensity d \<in> {7, 8, 9}"
  shows "\<exists>r. calculate_liquefaction_index d = Inr r \<and> length (layers r) = length (layers d) \<and>
     (\<forall>i < length (layers d).
        (ds (layers d ! i) \<le> 5 \<longrightarrow> wi (layers r ! i) = 10) \<and>
        (5 < ds (layers d ! i) \<and> ds (layers d ! i) \<le> 15 \<longrightarrow> wi (layers r ! i) = 5) \<and>
        (15 < ds (layers d ! i) \<and> ds (layers d ! i) \<le> 20 \<longrightarrow> wi (layers r ! i) = 2) \<and>
        (20 < ds (layers d ! i) \<longrightarrow> wi (layers r ! i) = 0))"
proof -
  from assms obtain n0 where n0: "N0_map (intensity d) = Some n0"
    using N0_map_Some by blast
  show ?thesis
    by (simp add: calc_Inr [OF n0] wi_layer_result)
qed

theorem depth_weight_witness:
  "\<exists>r. calculate_liquefaction_index
      \<lparr> intensity = 7, depth_criteria = 15, dw = 2,
        layers = [\<lparr> ds = 5, N = 12, di = 3 \<rparr>, \<lparr> ds = 15, N = 12, di = 3 \<rparr>,
                  \<lparr> ds = 20, N = 12, di = 3 \<rparr>, \<lparr> ds = 20.5, N = 12, di = 3 \<rparr>] \<rparr> = Inr r
    \<and> wi (layers r ! 0) = 10 \<and> wi (layers r ! 1) = 5 \<and> wi (layers r ! 2) = 2 \<and> wi (layers r ! 3) = 0"
  using depth_weight [of "\<lparr> intensity = 7, depth_criteria = 15, dw = 2,
        layers = [\<lparr> ds = 5, N = 12, di = 3 \<rparr>, \<lparr> ds = 15, N = 12, di = 3 \<rparr>,
                  \<lparr> ds = 20, N = 12, di = 3 \<rparr>, \<lparr> ds = 20.5, N = 12, di = 3 \<rparr>] \<rparr>"]
  by (auto simp: calc_Inr N0_map_cases wi_layer_result)

lemma Ncr_pos:
  assumes "0 < n0"
  shows "0 < Ncr (layer_result n0 w l)"
proof -
  have "1 \<le> (if ds l \<le> w then 1.0 + 0.05 * (w - ds l) else 1.0 + 0.1 * (ds l - w))"
    by (rule depth_factor_ge_1)
  then have "0 < (if ds l \<le> w then 1.0 + 0.05 * (w - ds l) else 1.0 + 0.1 * (ds l - w))"
    by linarith
  with assms show ?thesis
    unfolding Ncr_layer_result by (intro mult_pos_pos) simp_all
qed

lemma Ncr_ge_N0:
  assumes "0 < n0"
  shows "real_of_int n0 \<le> Ncr (layer_result n0 w l)"
proof -
  have "1 \<le> (if ds l \<le> w then 1.0 + 0.05 * (w - ds l) else 1.0 + 0.1 * (ds l - w))"
    by (rule depth_factor_ge_1)
  with assms have "real_of_int n0 * 1 \<le> real_of_int n0 *
      (if ds l \<le> w then 1.0 + 0.05 * (w - ds l) else 1.0 + 0.1 * (ds l - w))"
    by (intro mult_left_mono) simp_all
  then show ?thesis by (simp add: Ncr_layer_result)
qed

text \<open>
  Claim C6. The loop body sets the safety factor to \<open>N / Ncr\<close> when \<open>Ncr \<noteq> 0\<close> and
  to infinity when \<open>Ncr = 0\<close>, for any reference count. In a calculation the
  reference count comes from the table: for an intensity of 7, 8 or 9, \<open>ds \<ge> 0\<close> and
  \<open>dw \<ge> 0\<close>, it is positive, the depth factor is at least 1 (\<open>N0 \<le> Ncr\<close>), so
  \<open>Ncr\<close> is positive and the factor is the quotient.
\<close>

theorem safety_factor:
  "FS (layer_result n0 w l) =
     (if Ncr (layer_result n0 w l) \<noteq> 0 then Fin (N l / Ncr (layer_result n0 w l)) else PosInf) \<and>
   (intensity d \<in> {7, 8, 9} \<longrightarrow>
     (\<exists>r. calculate_liquefaction_index d = Inr r \<and> length (layers r) = length (layers d) \<and>
       (\<forall>i < length (layers d).
          layers r ! i = layer_result (N0 (layers r ! i)) (dw d) (layers d ! i) \<and>
          (0 \<le> ds (layers d ! i) \<and> 0 \<le> dw d \<longrightarrow>
             0 < N0 (layers r ! i) \<and>
             real_of_int (N0 (layers r ! i)) \<le> Ncr (layers r ! i) \<and>
             0 < Ncr (layers r ! i) \<and>
             FS (layers r ! i) = Fin (N (layers d ! i) / Ncr (layers r ! i))))))"
proof (intro conjI impI)
  show "FS (layer_result n0 w l) =
     (if Ncr (layer_result n0 w l) \<noteq> 0 then Fin (N l / Ncr (layer_result n0 w l)) else PosInf)"
    by (rule FS_layer_result)
next
  assume "intensity d \<in> {7, 8, 9}"
  then obtain m where m: "N0_map (intensity d) = Some m" and pos: "0 < m"
    using N0_map_Some by fastforce
  have "Ncr (layer_result m v k) \<noteq> 0" for v k
    using Ncr_pos [OF pos, of v k] by simp
  then show "\<exists>r. calculate_liquefaction_index d = Inr r \<and> length (layers r) = length (layers d) \<and>
       (\<forall>i < length (layers d).
          layers r ! i = layer_result (N0 (layers r ! i)) (dw d) (layers d ! i) \<and>
          (0 \<le> ds (layers d ! i) \<and> 0 \<le> dw d \<longrightarrow>
             0 < N0 (layers r ! i) \<and>
             real_of_int (N0 (layers r ! i)) \<le> Ncr (layers r ! i) \<and>
             0 < Ncr (layers r ! i) \<and>
             FS (layers r ! i) = Fin (N (layers d ! i) / Ncr (layers r ! i))))"
    using Ncr_pos [OF pos] Ncr_ge_N0 [OF pos] pos
    by (simp add: calc_Inr [OF m] fields_layer_result FS_layer_result)
qed

theorem safety_factor_witness:
  "FS (layer_result 0 2 \<lparr> ds = 12, N = 19, di = 3 \<rparr>) = PosInf \<and>
   (\<exists>r. calculate_liquefaction_index
      \<lparr> intensity = 9, depth_criteria = 20, dw = 2, layers = [\<lparr> ds = 12, N = 19, di = 3 \<rparr>] \<rparr> = Inr r
    \<and> Ncr (layers r ! 0) = 38 \<and> FS (layers r ! 0) = Fin (1 / 2))"
  using safety_factor [of 0 2 "\<lparr> ds = 12, N = 19, di = 3 \<rparr>"
      "\<lparr> intensity = 9, depth_criteria = 20, dw = 2, layers = [\<lparr> ds = 12, N = 19, di = 3 \<rparr>] \<rparr>"]
  by (auto simp: calc_Inr N0_map_cases Ncr_layer_result)

subsection \<open>Inputs that are not validated\<close>

text \<open>
  Claim C7 says that a negative \<open>ds\<close>, \<open>N\<close> or \<open>di\<close> makes the calculation fail with
  an invalid-input error. The source checks none of them: a layer with all three
  negative is computed like any other, here to an index of -30.
\<close>

theorem negative_inputs_counterexample:
  "calculate_liquefaction_index
      \<lparr> intensity = 7, depth_criteria = 15, dw = 2, layers = [\<lparr> ds = - 8, N = - 39, di = - 1 \<rparr>] \<rparr>
   = Inr \<lparr> intensity = 7, depth_criteria = 15, dw = 2,
           layers = [\<lparr> ds = - 8, N = - 39, di = - 1, N0 = 13, Ncr = 19.5, FS = Fin (- 2), wi = 10,
                       contribution = - 30 \<rparr>],
           ile = - 30, grade = NoLiquefaction \<rparr>"
  by (simp add: calculate_liquefaction_index_def N0_map_def layer_result_def py_sum_def)

text \<open>
  Claim C7, as the source has it: the calculation fails, with the \<open>KeyError\<close> of the
  table lookup and before any layer is looked at, exactly when the intensity is not 7,
  8 or 9. For an intensity of 7, 8 or 9 it returns a result with one detail per layer,
  whatever the signs of \<open>ds\<close>, \<open>N\<close> and \<open>di\<close>.
\<close>

theorem invalid_input:
  "(intensity d \<notin> {7, 8, 9} \<longrightarrow> calculate_liquefaction_index d = Inl KeyError) \<and>
   (intensity d \<in> {7, 8, 9} \<longrightarrow>
      (\<exists>r. calculate_liquefaction_index d = Inr r \<and> length (layers r) = length (layers d)))"
proof (intro conjI impI)
  assume "intensity d \<notin> {7, 8, 9}"
  then show "calculate_liquefaction_index d = Inl KeyError"
    by (simp add: calculate_liquefaction_index_def N0_map_None)
next
  assume "intensity d \<in> {7, 8, 9}"
  then obtain n0 where "N0_map (intensity d) = Some n0" using N0_map_Some by blast
  then show "\<exists>r. calculate_liquefaction_index d = Inr r \<and> length (layers r) = length (layers d)"
    by (simp add: calc_Inr)
qed

theorem invalid_input_witness:
  "calculate_liquefaction_index \<lparr> intensity = 10, depth_criteria = 15, dw = 2,
      layers = [\<lparr> ds = 1.5, N = 12, di = 3 \<rparr>] \<rparr> = Inl KeyError \<and>
   (\<exists>r. calculate_liquefaction_index \<lparr> intensity = 8, depth_criteria = 15, dw = 2,
      layers = [\<lparr> ds = - 1.5, N = - 12, di = - 3 \<rparr>] \<rparr> = Inr r \<and> length (layers r) = 1)"
  using invalid_input [of "\<lparr> intensity = 10, depth_criteria = 15, dw = 2,
      layers = [\<lparr> ds = 1.5, N = 12, di = 3 \<rparr>] \<rparr>"]
    invalid_input [of "\<lparr> intensity = 8, depth_criteria = 15, dw = 2,
      layers = [\<lparr> ds = - 1.5, N = - 12, di = - 3 \<rparr>] \<rparr>"]
  by simp

text \<open>
  Claim C10. A depth criterion other than 15, be it 20, 17 or 0, is never rejected:
  the calculation returns a result graded with the thresholds of 20 m, Slight up to 6,
  Moderate up to 18 and Severe above.
\<close>

theorem unvalidated_depth_criteria:
  assumes "intensity d \<in> {7, 8, 9}" and "depth_criteria d \<noteq> 15"
  shows "\<exists>r. calculate_liquefaction_index d = Inr r \<and> depth_criteria r = depth_criteria d \<and>
     grade r = (if ile r \<le> 0 then NoLiquefaction
                else if ile r \<le> 6 then Slight
                else if ile r \<le> 18 then Moderate
                else Severe)"
proof -
  from assms obtain n0 where n0: "N0_map (intensity d) = Some n0"
    using N0_map_Some by blast
  from calc_grade [OF n0] assms(2) show ?thesis by auto
qed

theorem unvalidated_depth_criteria_witness:
  "(\<exists>r. calculate_liquefaction_index
      \<lparr> intensity = 7, depth_criteria = 17, dw = 2, layers = [\<lparr> ds = 2, N = 0, di = 0.6 \<rparr>] \<rparr> = Inr r
    \<and> depth_criteria r = 17 \<and> ile r = 6 \<and> grade r = Slight) \<and>
   (\<exists>r. calculate_liquefaction_index
      \<lparr> intensity = 7, depth_criteria = 0, dw = 2, layers = [\<lparr> ds = 2, N = 0, di = 1.8 \<rparr>] \<rparr> = Inr r
    \<and> depth_criteria r = 0 \<and> ile r = 18 \<and> grade r = Moderate)"
  using unvalidated_depth_criteria [of "\<lparr> intensity = 7, depth_criteria = 17, dw = 2,
      layers = [\<lparr> ds = 2, N = 0, di = 0.6 \<rparr>] \<rparr>"]
    unvalidated_depth_criteria [of "\<lparr> intensity = 7, depth_criteria = 0, dw = 2,
      layers = [\<lparr> ds = 2, N = 0, di = 1.8 \<rparr>] \<rparr>"]
  by (auto simp: calc_Inr N0_map_cases layer_result_def)

section \<open>Properties of the column reconciler\<close>

subsection \<open>The dictionary of normalised headers\<close>

lemma normalize_text_Nil: "normalize_text [] = []"
  by (simp add: normalize_text_def)

lemma normalized_columns_snoc:
  "normalized_columns (hs @ [h]) = AList.update (normalize_text h) h (normalized_columns hs)"
  by (simp add: normalized_columns_def)

lemma map_of_normalized_columns:
  "map_of (normalized_columns hs) k =
     (if k \<in> normalize_text ` set hs
      then Some (last (filter (\<lambda>c. normalize_text c = k) hs)) else None)"
proof (induction hs rule: rev_induct)
  case Nil
  show ?case by (simp add: normalized_columns_def)
next
  case (snoc h hs)
  show ?case
    by (auto simp: normalized_columns_snoc update_conv' snoc)
qed

lemma find_snoc:
  "List.find P (xs @ [x]) =
     (case List.find P xs of Some y \<Rightarrow> Some y | None \<Rightarrow> if P x then Some x else None)"
  by (induction xs) simp_all

lemma find_Some_sat: "List.find P xs = Some x \<Longrightarrow> P x \<and> x \<in> set xs"
  by (induction xs) (auto split: if_splits)

lemma find_key_update:
  "map_option fst (List.find (\<lambda>p. Q (fst p)) (AList.update k v al)) =
     (case map_option fst (List.find (\<lambda>p. Q (fst p)) al) of
        Some k' \<Rightarrow> Some k'
      | None \<Rightarrow> if Q k then Some k else None)"
  by (induction al) (auto split: option.split)

lemma find_key_normalized_columns:
  "map_option fst (List.find (\<lambda>p. Q (fst p)) (normalized_columns hs)) =
   map_option normalize_text (List.find (\<lambda>h. Q (normalize_text h)) hs)"
proof (induction hs rule: rev_induct)
  case Nil
  show ?case by (simp add: normalized_columns_def)
next
  case (snoc h hs)
  show ?case
    by (simp add: normalized_columns_snoc find_key_update find_snoc snoc split: option.split)
qed

lemma find_key_map_of:
  "List.find (\<lambda>p. Q (fst p)) al = Some (k, v) \<Longrightarrow> map_of al k = Some v"
proof (induction al)
  case Nil
  then show ?case by simp
next
  case (Cons p al)
  show ?case
  proof (cases "Q (fst p)")
    case True
    with Cons.prems show ?thesis by (cases p) simp
  next
    case False
    with Cons.prems have f: "List.find (\<lambda>p. Q (fst p)) al = Some (k, v)" by simp
    then have "Q k" using find_Some_sat by fastforce
    with False have "fst p \<noteq> k" by auto
    with Cons.IH [OF f] show ?thesis by (cases p) simp
  qed
qed

subsection \<open>The three matching steps\<close>

lemma match_fuzzy_find:
  "match_fuzzy sn al items =
     map_option snd (List.find (\<lambda>p. sublist sn (fst p) \<or>
        list_ex (\<lambda>a. sublist (normalize_text a) (fst p)) al) items)"
  by (induction sn al items rule: match_fuzzy.induct) simp_all

lemma match_fuzzy_normalized_columns:
  "match_fuzzy (normalize_text std) al (normalized_columns hs) =
     map_option (last_alike hs) (List.find (spec_fuzzy std al) hs)"
proof -
  let ?Q = "\<lambda>k. sublist (normalize_text std) k \<or> list_ex (\<lambda>a. sublist (normalize_text a) k) al"
  have keys: "map_option fst (List.find (\<lambda>p. ?Q (fst p)) (normalized_columns hs)) =
      map_option normalize_text (List.find (\<lambda>h. ?Q (normalize_text h)) hs)"
    by (rule find_key_normalized_columns)
  have sf: "spec_fuzzy std al = (\<lambda>h. ?Q (normalize_text h))"
    by (simp add: spec_fuzzy_def fun_eq_iff)
  show ?thesis
  proof (cases "List.find (\<lambda>p. ?Q (fst p)) (normalized_columns hs)")
    case None
    with keys show ?thesis by (simp add: match_fuzzy_find sf)
  next
    case (Some p)
    obtain k v where p: "p = (k, v)" by (cases p)
    from keys Some p
    have "map_option normalize_text (List.find (\<lambda>h. ?Q (normalize_text h)) hs) = Some k"
      by simp
    then obtain h where h: "List.find (\<lambda>h. ?Q (normalize_text h)) hs = Some h"
      and k: "k = normalize_text h" by (auto simp: map_option_case split: option.splits)
    from h have "h \<in> set hs" by (auto simp: find_Some_iff)
    moreover from find_key_map_of [of ?Q] Some p have "map_of (normalized_columns hs) k = Some v"
      by simp
    ultimately have "v = last_alike hs h"
      by (simp add: map_of_normalized_columns k last_alike_def split: if_splits)
    with Some p h show ?thesis by (simp add: match_fuzzy_find sf)
  qed
qed

lemma match_aliases_normalized_columns:
  "match_aliases (normalized_columns hs) as =
     map_option (\<lambda>a. last (filter (\<lambda>c. normalize_text c = normalize_text a) hs))
       (List.find (\<lambda>a. normalize_text a \<in> normalize_text ` set hs) as)"
  by (induction as) (simp_all add: map_of_normalized_columns Let_def)

lemma find_alike:
  assumes "k \<in> normalize_text ` set hs"
  shows "\<exists>h. List.find (\<lambda>h. normalize_text h = k) hs = Some h \<and> h \<in> set hs \<and> normalize_text h = k"
proof (cases "List.find (\<lambda>h. normalize_text h = k) hs")
  case None
  with assms show ?thesis by (auto simp: find_None_iff)
next
  case (Some h)
  then show ?thesis by (auto simp: find_Some_iff)
qed

lemma spec_alias_match_find:
  "spec_alias_match hs as =
     (case List.find (\<lambda>a. normalize_text a \<in> normalize_text ` set hs) as of
        None \<Rightarrow> None
      | Some a \<Rightarrow> List.find (\<lambda>h. normalize_text h = normalize_text a) hs)"
proof (induction as)
  case Nil
  show ?case by simp
next
  case (Cons a as)
  show ?case
  proof (cases "normalize_text a \<in> normalize_text ` set hs")
    case True
    from find_alike [OF this] show ?thesis using True by auto
  next
    case False
    then have "List.find (\<lambda>h. normalize_text h = normalize_text a) hs = None"
      unfolding find_None_iff by (metis imageI)
    with False Cons show ?thesis by simp
  qed
qed

lemma last_filter_alike:
  assumes "k \<in> normalize_text ` set hs"
  shows "last (filter (\<lambda>c. normalize_text c = k) hs) \<in> set hs \<and>
         normalize_text (last (filter (\<lambda>c. normalize_text c = k) hs)) = k"
proof -
  from assms have ne: "filter (\<lambda>c. normalize_text c = k) hs \<noteq> []"
    by (auto simp: filter_empty_conv)
  from last_in_set [OF ne] show ?thesis by auto
qed

lemma best_match_spec:
  assumes "\<forall>a \<in> set aliases. normalize_text a \<noteq> []"
  shows "best_match (normalized_columns hs) std aliases =
         map_option (last_alike hs) (spec_match hs std aliases)"
proof (cases "normalize_text std \<in> normalize_text ` set hs")
  case True
  from find_alike [OF True] obtain h where
    h: "List.find (\<lambda>h. normalize_text h = normalize_text std) hs = Some h"
    and nh: "normalize_text h = normalize_text std" by blast
  show ?thesis
    using True by (simp add: best_match_def map_of_normalized_columns spec_match_def h
        last_alike_def nh)
next
  case False
  then have none: "List.find (\<lambda>h. normalize_text h = normalize_text std) hs = None"
    unfolding find_None_iff by (metis imageI)
  show ?thesis
  proof (cases "List.find (\<lambda>a. normalize_text a \<in> normalize_text ` set hs) aliases")
    case None
    then show ?thesis
      using False
      by (simp add: best_match_def map_of_normalized_columns spec_match_def none
          match_aliases_normalized_columns spec_alias_match_find py_not_def
          match_fuzzy_normalized_columns split: option.split)
  next
    case (Some a)
    then have a: "a \<in> set aliases" and ain: "normalize_text a \<in> normalize_text ` set hs"
      by (auto simp: find_Some_iff)
    from find_alike [OF ain] obtain h where
      h: "List.find (\<lambda>h. normalize_text h = normalize_text a) hs = Some h"
      and nh: "normalize_text h = normalize_text a" by blast
    let ?c = "last (filter (\<lambda>c. normalize_text c = normalize_text a) hs)"
    from last_filter_alike [OF ain] assms a have "normalize_text ?c \<noteq> []" by simp
    then have "?c \<noteq> []" using normalize_text_Nil by metis
    then show ?thesis
      using False Some
      by (simp add: best_match_def map_of_normalized_columns spec_match_def none
          match_aliases_normalized_columns spec_alias_match_find py_not_def h nh last_alike_def)
  qed
qed

lemma spec_alias_match_in: "spec_alias_match hs as = Some h \<Longrightarrow> h \<in> set hs"
  by (induction as) (auto simp: find_Some_iff split: option.splits)

lemma spec_match_in: "spec_match hs std aliases = Some h \<Longrightarrow> h \<in> set hs"
  by (auto simp: spec_match_def find_Some_iff split: option.splits dest: spec_alias_match_in)

lemma last_alike_distinct:
  assumes "distinct (map normalize_text hs)" and "h \<in> set hs"
  shows "last_alike hs h = h"
proof -
  from assms(1) have inj: "inj_on normalize_text (set hs)" and d: "distinct hs"
    by (simp_all add: distinct_map)
  have "filter (\<lambda>c. normalize_text c = normalize_text h) hs = filter (\<lambda>c. c = h) hs"
    using inj assms(2) by (intro filter_cong) (auto dest: inj_onD)
  also have "\<dots> = [h]"
    using d assms(2) by (induction hs) (auto simp: filter_empty_conv)
  finally show ?thesis by (simp add: last_alike_def)
qed

subsection \<open>The alias table\<close>

lemma str_simps: "str [] = []" "str (c # cs) = of_char c # str cs"
  by (simp_all add: str_def)

lemma normalize_text_Cons:
  "normalize_text (c # cs) = map lower_char (filter keep_char (c # cs))"
  by (simp add: normalize_text_def)

lemmas text_eval = str_simps normalize_text_Nil normalize_text_Cons keep_char_def lower_char_def

lemma column_mapping_keys: "distinct (map fst column_mapping)"
  by (simp add: column_mapping_def str_simps)

lemma column_mapping_nonempty:
  "(std, aliases) \<in> set column_mapping \<Longrightarrow>
     normalize_text std \<noteq> [] \<and> (\<forall>a \<in> set aliases. normalize_text a \<noteq> [])"
  by (auto simp: column_mapping_def text_eval)

lemma auto_identify_columns_lookup:
  assumes "(std, aliases) \<in> set column_mapping"
  shows "map_of (auto_identify_columns hs) std =
         Some (best_match (normalized_columns hs) std aliases)"
proof -
  let ?f = "\<lambda>(s, a). (s, best_match (normalized_columns hs) s a)"
  have "map fst (map ?f column_mapping) = map fst column_mapping"
    by (simp add: case_prod_unfold comp_def)
  with column_mapping_keys have "distinct (map fst (map ?f column_mapping))" by (simp only:)
  moreover from assms have "(std, best_match (normalized_columns hs) std aliases)
      \<in> set (map ?f column_mapping)" by force
  ultimately show ?thesis
    unfolding auto_identify_columns_def Let_def by (rule map_of_is_SomeI)
qed

text \<open>
  Claim C8, as the source has it. Normalisation deletes every character outside
  \<open>a-z\<close>, \<open>A-Z\<close>, \<open>0-9\<close> and U+4E00 to U+9FA5 and lower-cases the rest. For each of the
  four fields, the rules of the specification (exact name, then the aliases in their
  order, then the substring rule over the headers in their order) select a header, and
  the column reported is the last header of the table with the same normalised form as
  the selected one. When no two headers have the same normalised form it is the
  selected header itself.
\<close>

theorem column_matching:
  assumes "(std, aliases) \<in> set column_mapping"
  shows "normalize_text t = map lower_char (filter keep_char t) \<and>
     normalize_text t =
       map (\<lambda>c. if 65 \<le> c \<and> c \<le> 90 then c + 32 else c)
         (filter (\<lambda>c. (97 \<le> c \<and> c \<le> 122) \<or> (65 \<le> c \<and> c \<le> 90) \<or>
                      (48 \<le> c \<and> c \<le> 57) \<or> (0x4e00 \<le> c \<and> c \<le> 0x9fa5)) t) \<and>
     map_of (auto_identify_columns headers) std =
       Some (map_option (last_alike headers) (spec_match headers std aliases)) \<and>
     (distinct (map normalize_text headers) \<longrightarrow>
        map_of (auto_identify_columns headers) std = Some (spec_match headers std aliases))"
proof -
  have n: "normalize_text t = map lower_char (filter keep_char t)"
    by (simp add: normalize_text_def)
  have e: "normalize_text t =
       map (\<lambda>c. if 65 \<le> c \<and> c \<le> 90 then c + 32 else c)
         (filter (\<lambda>c. (97 \<le> c \<and> c \<le> 122) \<or> (65 \<le> c \<and> c \<le> 90) \<or>
                      (48 \<le> c \<and> c \<le> 57) \<or> (0x4e00 \<le> c \<and> c \<le> 0x9fa5)) t)"
    unfolding n by (intro arg_cong2 [of _ _ _ _ map] filter_cong ext refl)
      (simp_all add: lower_char_def keep_char_def)
  from column_mapping_nonempty [OF assms]
  have "best_match (normalized_columns headers) std aliases =
        map_option (last_alike headers) (spec_match headers std aliases)"
    by (intro best_match_spec) simp
  with auto_identify_columns_lookup [OF assms]
  have m: "map_of (auto_identify_columns headers) std =
       Some (map_option (last_alike headers) (spec_match headers std aliases))" by simp
  have dd: "map_option (last_alike headers) (spec_match headers std aliases) =
        spec_match headers std aliases" if "distinct (map normalize_text headers)"
  proof (cases "spec_match headers std aliases")
    case None
    then show ?thesis by simp
  next
    case (Some h)
    with spec_match_in have "h \<in> set headers" by blast
    with that Some show ?thesis by (simp add: last_alike_distinct)
  qed
  have d: "distinct (map normalize_text headers) \<longrightarrow>
        map_of (auto_identify_columns headers) std = Some (spec_match headers std aliases)"
    using m dd by simp
  from n e m d show ?thesis by (intro conjI)
qed

lemma ds_field:
  "(str ''Saturated soil depth ds(m)'',
     [str ''Saturated soil depth ds(m)'', str ''Saturated depth(m)'', str ''ds'',
      str ''Saturated depth'', str ''Soil depth ds'', str ''Depth ds'']) \<in> set column_mapping"
  by (simp add: column_mapping_def)

lemmas match_eval = best_match_def normalized_columns_def spec_match_def spec_fuzzy_def
  py_not_def sublist_Cons_right prefix_Cons last_alike_def

text \<open>
  Claim C8 scans the headers in their original order for the substring rule, so that the
  first qualifying header is the match. The source scans a dictionary keyed by the
  normalised headers: two headers with the same normalised form share one entry, which
  holds the later header. For the headers \<open>x ds\<close> and \<open>xds\<close> the depth field is
  mapped to \<open>xds\<close>, while the first header that contains the alias \<open>ds\<close> is \<open>x ds\<close>.
\<close>

theorem column_matching_counterexample:
  "map_of (auto_identify_columns [str ''x ds'', str ''xds''])
       (str ''Saturated soil depth ds(m)'') = Some (Some (str ''xds'')) \<and>
   spec_match [str ''x ds'', str ''xds''] (str ''Saturated soil depth ds(m)'')
     [str ''Saturated soil depth ds(m)'', str ''Saturated depth(m)'', str ''ds'',
      str ''Saturated depth'', str ''Soil depth ds'', str ''Depth ds''] = Some (str ''x ds'')"
  unfolding auto_identify_columns_lookup [OF ds_field]
  by (simp add: match_eval text_eval)

theorem column_matching_witness:
  "(str ''Saturated soil depth ds(m)'',
     [str ''Saturated soil depth ds(m)'', str ''Saturated depth(m)'', str ''ds'',
      str ''Saturated depth'', str ''Soil depth ds'', str ''Depth ds'']) \<in> set column_mapping \<and>
   distinct (map normalize_text [str ''Point ID'', str ''SaturatedDepthds'', str ''N'', str ''di'']) \<and>
   map_of (auto_identify_columns [str ''Point ID'', str ''SaturatedDepthds'', str ''N'', str ''di''])
       (str ''Saturated soil depth ds(m)'') = Some (Some (str ''SaturatedDepthds'')) \<and>
   normalize_text (str ''Saturated soil depth ds(m)'') = str ''saturatedsoildepthdsm'' \<and>
   normalize_text [83, 80, 84, 95, 0x6df1, 0x5ea6, 45, 0x3400, 0x9fa6, 50] = [115, 112, 116, 0x6df1, 0x5ea6, 50]"
proof -
  have n1: "normalize_text (str ''Saturated soil depth ds(m)'') = str ''saturatedsoildepthdsm''"
    by (simp add: text_eval)
  have n2: "normalize_text [83, 80, 84, 95, 0x6df1, 0x5ea6, 45, 0x3400, 0x9fa6, 50] =
      [115, 112, 116, 0x6df1, 0x5ea6, 50]"
    by (simp add: text_eval)
  have d: "distinct (map normalize_text [str ''Point ID'', str ''SaturatedDepthds'', str ''N'', str ''di''])"
    by (simp add: text_eval)
  have s: "spec_match [str ''Point ID'', str ''SaturatedDepthds'', str ''N'', str ''di'']
     (str ''Saturated soil depth ds(m)'')
     [str ''Saturated soil depth ds(m)'', str ''Saturated depth(m)'', str ''ds'',
      str ''Saturated depth'', str ''Soil depth ds'', str ''Depth ds''] = Some (str ''SaturatedDepthds'')"
    by (simp add: match_eval text_eval)
  have "map_of (auto_identify_columns [str ''Point ID'', str ''SaturatedDepthds'', str ''N'', str ''di''])
       (str ''Saturated soil depth ds(m)'') = Some (Some (str ''SaturatedDepthds''))"
    using column_matching [OF ds_field, of "[]"
        "[str ''Point ID'', str ''SaturatedDepthds'', str ''N'', str ''di'']"] d
    unfolding s by blast
  with ds_field d n1 n2 show ?thesis by blast
qed

subsection \<open>Missing columns\<close>

lemma sublist_nonempty: "sublist xs ys \<Longrightarrow> xs \<noteq> [] \<Longrightarrow> ys \<noteq> []"
  by auto

lemma spec_match_nonempty:
  assumes "normalize_text std \<noteq> []" and "\<forall>a \<in> set aliases. normalize_text a \<noteq> []"
    and "spec_match hs std aliases = Some h"
  shows "normalize_text h \<noteq> []"
proof (cases "List.find (\<lambda>h. normalize_text h = normalize_text std) hs")
  case (Some h')
  with assms(3) have "h' = h" by (simp add: spec_match_def)
  with find_Some_sat [OF Some] assms(1) show ?thesis by simp
next
  case None
  show ?thesis
  proof (cases "List.find (\<lambda>a. normalize_text a \<in> normalize_text ` set hs) aliases")
    case (Some a)
    from find_Some_sat [OF Some] have a: "a \<in> set aliases"
      and ain: "normalize_text a \<in> normalize_text ` set hs" by simp_all
    from find_alike [OF ain] obtain h' where
      h': "List.find (\<lambda>h. normalize_text h = normalize_text a) hs = Some h'"
      and nh: "normalize_text h' = normalize_text a" by blast
    from None Some h' assms(3) have "h' = h"
      by (simp add: spec_match_def spec_alias_match_find)
    with nh a assms(2) show ?thesis by auto
  next
    case na: None
    with None assms(3) have "List.find (spec_fuzzy std aliases) hs = Some h"
      by (simp add: spec_match_def spec_alias_match_find)
    from find_Some_sat [OF this] have "spec_fuzzy std aliases h" by simp
    with assms(1,2) show ?thesis
      by (auto simp: spec_fuzzy_def list_ex_iff dest: sublist_nonempty)
  qed
qed

lemma last_alike_in:
  assumes "h \<in> set hs"
  shows "last_alike hs h \<in> set hs \<and> normalize_text (last_alike hs h) = normalize_text h"
  unfolding last_alike_def using assms by (intro last_filter_alike) simp

lemma best_match_field:
  assumes "(std, aliases) \<in> set column_mapping"
  shows "best_match (normalized_columns hs) std aliases =
           map_option (last_alike hs) (spec_match hs std aliases)"
    and "py_not (best_match (normalized_columns hs) std aliases) \<longleftrightarrow>
           spec_match hs std aliases = None"
    and "\<not> py_not (best_match (normalized_columns hs) std aliases) \<Longrightarrow>
           \<exists>c \<in> set hs. best_match (normalized_columns hs) std aliases = Some c"
proof -
  note ne = column_mapping_nonempty [OF assms]
  show eq: "best_match (normalized_columns hs) std aliases =
           map_option (last_alike hs) (spec_match hs std aliases)"
    using ne by (intro best_match_spec) simp
  have some: "last_alike hs h \<in> set hs \<and> last_alike hs h \<noteq> []"
    if "spec_match hs std aliases = Some h" for h
  proof -
    from that have "h \<in> set hs" by (rule spec_match_in)
    from last_alike_in [OF this] spec_match_nonempty [OF _ _ that] ne
    have "last_alike hs h \<in> set hs" and "normalize_text (last_alike hs h) \<noteq> []" by simp_all
    then show ?thesis using normalize_text_Nil by metis
  qed
  show "py_not (best_match (normalized_columns hs) std aliases) \<longleftrightarrow>
           spec_match hs std aliases = None"
    using some by (cases "spec_match hs std aliases") (simp_all add: eq py_not_def)
  show "\<exists>c \<in> set hs. best_match (normalized_columns hs) std aliases = Some c"
    if "\<not> py_not (best_match (normalized_columns hs) std aliases)"
    using that some by (cases "spec_match hs std aliases") (simp_all add: eq py_not_def)
qed

lemma missing_columns_spec:
  "missing_columns (auto_identify_columns hs) =
     map fst (filter (\<lambda>(std, aliases). spec_match hs std aliases = None) column_mapping)"
proof -
  have "map fst (filter (\<lambda>(col, val). py_not val)
          (map (\<lambda>(s, a). (s, best_match (normalized_columns hs) s a)) cm)) =
        map fst (filter (\<lambda>(s, a). spec_match hs s a = None) cm)"
    if "set cm \<subseteq> set column_mapping" for cm
    using that
  proof (induction cm)
    case Nil
    show ?case by simp
  next
    case (Cons p cm)
    obtain s a where p: "p = (s, a)" by (cases p)
    with Cons.prems have "(s, a) \<in> set column_mapping" by simp
    from best_match_field(2) [OF this] Cons show ?case by (simp add: p)
  qed
  then show ?thesis
    by (simp add: missing_columns_def auto_identify_columns_def)
qed

lemma missing_columns_empty:
  assumes "missing_columns (auto_identify_columns hs) = []"
    and "(std, aliases) \<in> set column_mapping"
  shows "\<exists>c \<in> set hs. map_of (auto_identify_columns hs) std = Some (Some c)"
proof -
  from assms have "spec_match hs std aliases \<noteq> None"
    by (auto simp: missing_columns_spec filter_empty_conv)
  with best_match_field(2,3) [OF assms(2), of hs]
  have "\<exists>c \<in> set hs. best_match (normalized_columns hs) std aliases = Some c" by blast
  then show ?thesis by (simp add: auto_identify_columns_lookup [OF assms(2)])
qed

lemma py_join_concat:
  "py_join sep xs = (case xs of [] \<Rightarrow> [] | x # ys \<Rightarrow> x @ concat (map (\<lambda>y. sep @ y) ys))"
  by (induction sep xs rule: py_join.induct) simp_all

lemma column_mapping_names:
  "map fst column_mapping =
     [str ''Point ID'', str ''Saturated soil depth ds(m)'', str ''Measured N-value'',
      str ''Layer thickness di(m)'']"
  by (simp add: column_mapping_def)

lemma auto_identify_columns_keys:
  "map fst (auto_identify_columns hs) = map fst column_mapping"
  by (simp add: auto_identify_columns_def case_prod_unfold comp_def)

lemma best_match_None:
  assumes "(std, aliases) \<in> set column_mapping"
  shows "py_not (best_match (normalized_columns hs) std aliases) \<longleftrightarrow>
         best_match (normalized_columns hs) std aliases = None"
  using best_match_field(1,2) [OF assms, of hs] by (auto simp: py_not_def)

lemma missing_by_lookup:
  assumes "distinct (map fst m)" and "\<forall>(c, v) \<in> set m. py_not v \<longleftrightarrow> v = None"
  shows "missing_columns m = filter (\<lambda>f. map_of m f = Some None) (map fst m)"
  using assms
proof (induction m)
  case Nil
  show ?case by (simp add: missing_columns_def)
next
  case (Cons p m)
  obtain c v where p: "p = (c, v)" by (cases p)
  from Cons.prems p have notin: "c \<notin> fst ` set m" and d: "distinct (map fst m)"
    and v: "py_not v \<longleftrightarrow> v = None" and rest: "\<forall>(c, v) \<in> set m. py_not v \<longleftrightarrow> v = None"
    by auto
  have "filter (\<lambda>f. map_of ((c, v) # m) f = Some None) (map fst m) =
        filter (\<lambda>f. map_of m f = Some None) (map fst m)"
    using notin by (intro filter_cong) auto
  with Cons.IH [OF d rest] v show ?case
    by (simp add: p missing_columns_def)
qed

lemma missing_columns_lookup:
  "missing_columns (auto_identify_columns hs) =
     filter (\<lambda>f. map_of (auto_identify_columns hs) f = Some None) (map fst column_mapping)"
proof -
  have d: "distinct (map fst (auto_identify_columns hs))"
    using column_mapping_keys by (simp only: auto_identify_columns_keys)
  have "\<forall>(c, v) \<in> set (auto_identify_columns hs). py_not v \<longleftrightarrow> v = None"
    using best_match_None by (auto simp: auto_identify_columns_def)
  from missing_by_lookup [OF d this] show ?thesis
    by (simp only: auto_identify_columns_keys)
qed

lemma resolved_field:
  assumes "missing_columns (auto_identify_columns hs) = []" and "f \<in> set (map fst column_mapping)"
  shows "\<exists>c \<in> set hs. map_of (auto_identify_columns hs) f = Some (Some c)"
proof -
  from assms(2) obtain aliases where "(f, aliases) \<in> set column_mapping" by auto
  from missing_columns_empty [OF assms(1) this] show ?thesis .
qed

text \<open>
  Claim C9, as the source has it. The mapping has the four fields Point ID, Saturated
  soil depth ds(m), Measured N-value and Layer thickness di(m) as its keys; the missing
  fields are those mapped to nothing, which are exactly the ones for which no rule
  finds a header. When a field is missing, no point group is derived from the table,
  and the message shown is the error of the statistics display if that raised, and
  otherwise the warning text followed by the names of the missing fields, in the order
  of the alias table, separated by a comma and a space. Point groups are derived only
  when each of the four fields is mapped to a header of the table.
\<close>

theorem incomplete_mapping:
  "map fst (auto_identify_columns columns) =
     [str ''Point ID'', str ''Saturated soil depth ds(m)'', str ''Measured N-value'',
      str ''Layer thickness di(m)''] \<and>
   missing_columns (auto_identify_columns columns) =
     filter (\<lambda>f. map_of (auto_identify_columns columns) f = Some None)
       [str ''Point ID'', str ''Saturated soil depth ds(m)'', str ''Measured N-value'',
        str ''Layer thickness di(m)''] \<and>
   missing_columns (auto_identify_columns columns) =
     map fst (filter (\<lambda>(std, aliases). spec_match columns std aliases = None) column_mapping) \<and>
   (missing_columns (auto_identify_columns columns) \<noteq> [] \<longrightarrow>
      imported_points (preview_file update_data_stats groupby columns) = [] \<and>
      shown (preview_file update_data_stats groupby columns) =
        (case update_data_stats (auto_identify_columns columns) of
           Some e \<Rightarrow> Some (Error e)
         | None \<Rightarrow>
             Some (Warning
               (str ''The following required columns were not identified, please check the table:''
                @ [10] @
                (case missing_columns (auto_identify_columns columns) of
                   [] \<Rightarrow> []
                 | x # ys \<Rightarrow> x @ concat (map (\<lambda>y. str '', '' @ y) ys)))))) \<and>
   (imported_points (preview_file update_data_stats groupby columns) \<noteq> [] \<longrightarrow>
      (\<exists>c \<in> set columns.
         map_of (current_column_mapping (preview_file update_data_stats groupby columns))
           (str ''Point ID'') = Some (Some c)) \<and>
      (\<exists>c \<in> set columns.
         map_of (current_column_mapping (preview_file update_data_stats groupby columns))
           (str ''Saturated soil depth ds(m)'') = Some (Some c)) \<and>
      (\<exists>c \<in> set columns.
         map_of (current_column_mapping (preview_file update_data_stats groupby columns))
           (str ''Measured N-value'') = Some (Some c)) \<and>
      (\<exists>c \<in> set columns.
         map_of (current_column_mapping (preview_file update_data_stats groupby columns))
           (str ''Layer thickness di(m)'') = Some (Some c)))"
proof (intro conjI impI)
  show "map fst (auto_identify_columns columns) =
     [str ''Point ID'', str ''Saturated soil depth ds(m)'', str ''Measured N-value'',
      str ''Layer thickness di(m)'']"
    by (simp only: auto_identify_columns_keys column_mapping_names)
  show "missing_columns (auto_identify_columns columns) =
     filter (\<lambda>f. map_of (auto_identify_columns columns) f = Some None)
       [str ''Point ID'', str ''Saturated soil depth ds(m)'', str ''Measured N-value'',
        str ''Layer thickness di(m)'']"
    using missing_columns_lookup [of columns] by (simp only: column_mapping_names)
  show "missing_columns (auto_identify_columns columns) =
     map fst (filter (\<lambda>(std, aliases). spec_match columns std aliases = None) column_mapping)"
    by (rule missing_columns_spec)
next
  assume "missing_columns (auto_identify_columns columns) \<noteq> []"
  then show "imported_points (preview_file update_data_stats groupby columns) = []"
    by (simp add: preview_file_def Let_def split: option.split)
next
  assume "missing_columns (auto_identify_columns columns) \<noteq> []"
  then show "shown (preview_file update_data_stats groupby columns) =
        (case update_data_stats (auto_identify_columns columns) of
           Some e \<Rightarrow> Some (Error e)
         | None \<Rightarrow>
             Some (Warning
               (str ''The following required columns were not identified, please check the table:''
                @ [10] @
                (case missing_columns (auto_identify_columns columns) of
                   [] \<Rightarrow> []
                 | x # ys \<Rightarrow> x @ concat (map (\<lambda>y. str '', '' @ y) ys)))))"
    by (simp add: preview_file_def Let_def warning_text_def py_join_concat [symmetric]
        split: option.split)
next
  assume ne: "imported_points (preview_file update_data_stats groupby columns) \<noteq> []"
  have cm: "current_column_mapping (preview_file update_data_stats groupby columns) =
        auto_identify_columns columns"
    by (simp add: preview_file_def Let_def split: option.split)
  have m: "missing_columns (auto_identify_columns columns) = []"
  proof (rule ccontr)
    assume "missing_columns (auto_identify_columns columns) \<noteq> []"
    then have "imported_points (preview_file update_data_stats groupby columns) = []"
      by (simp add: preview_file_def Let_def split: option.split)
    with ne show False by simp
  qed
  show "\<exists>c \<in> set columns.
         map_of (current_column_mapping (preview_file update_data_stats groupby columns))
           (str ''Point ID'') = Some (Some c)"
    unfolding cm by (rule resolved_field [OF m]) (simp only: column_mapping_names list.set insertI1 insertI2)
  show "\<exists>c \<in> set columns.
         map_of (current_column_mapping (preview_file update_data_stats groupby columns))
           (str ''Saturated soil depth ds(m)'') = Some (Some c)"
    unfolding cm by (rule resolved_field [OF m]) (simp only: column_mapping_names list.set insertI1 insertI2)
  show "\<exists>c \<in> set columns.
         map_of (current_column_mapping (preview_file update_data_stats groupby columns))
           (str ''Measured N-value'') = Some (Some c)"
    unfolding cm by (rule resolved_field [OF m]) (simp only: column_mapping_names list.set insertI1 insertI2)
  show "\<exists>c \<in> set columns.
         map_of (current_column_mapping (preview_file update_data_stats groupby columns))
           (str ''Layer thickness di(m)'') = Some (Some c)"
    unfolding cm by (rule resolved_field [OF m]) (simp only: column_mapping_names list.set insertI1 insertI2)
qed

lemma field_lookups:
  "map_of (auto_identify_columns hs) (str ''Point ID'') =
     Some (best_match (normalized_columns hs) (str ''Point ID'')
       [str ''Point ID'', str ''Point No'', str ''Measurement Point ID'', str ''ID'',
        str ''Point Number''])"
  by (rule auto_identify_columns_lookup) (simp add: column_mapping_def)

lemma spec_match_no_N:
  "map fst (filter (\<lambda>(std, aliases). spec_match [str ''ID'', str ''ds'', str ''di''] std aliases = None)
      column_mapping) = [str ''Measured N-value'']"
  by (simp add: column_mapping_def match_eval text_eval)

lemma spec_match_no_N_di:
  "map fst (filter (\<lambda>(std, aliases). spec_match [str ''ID'', str ''ds''] std aliases = None)
      column_mapping) = [str ''Measured N-value'', str ''Layer thickness di(m)'']"
  by (simp add: column_mapping_def match_eval text_eval)

lemma spec_match_complete:
  "map fst (filter (\<lambda>(std, aliases).
      spec_match [str ''ID'', str ''ds'', str ''N'', str ''di''] std aliases = None)
      column_mapping) = []"
  by (simp add: column_mapping_def match_eval text_eval)

text \<open>
  Claim C9 has every table with an unresolved field answered by a report that names the
  missing fields. In the source the statistics display runs before the check for missing
  columns and inside the same \<^verbatim>\<open>try\<close>: for a table without a column for the blow count
  and with text in its depth column, formatting the minimum depth raises, the handler
  shows an error box, and no field is named.
\<close>

theorem statistics_error_counterexample:
  "missing_columns (auto_identify_columns [str ''ID'', str ''ds'', str ''di'']) =
     [str ''Measured N-value''] \<and>
   preview_file (\<lambda>m. Some ValueError) (\<lambda>c. [(c, ())]) [str ''ID'', str ''ds'', str ''di''] =
     \<lparr> current_column_mapping = auto_identify_columns [str ''ID'', str ''ds'', str ''di''],
       imported_points = [], shown = Some (Error ValueError) \<rparr>"
  by (simp add: missing_columns_spec spec_match_no_N preview_file_def)

theorem incomplete_mapping_witness:
  "missing_columns (auto_identify_columns [str ''ID'', str ''ds'']) =
     [str ''Measured N-value'', str ''Layer thickness di(m)''] \<and>
   imported_points (preview_file (\<lambda>m. None) (\<lambda>c. [(c, ())]) [str ''ID'', str ''ds'']) = [] \<and>
   shown (preview_file (\<lambda>m. None) (\<lambda>c. [(c, ())]) [str ''ID'', str ''ds'']) =
     Some (Warning
       (str ''The following required columns were not identified, please check the table:''
        @ [10] @ str ''Measured N-value, Layer thickness di(m)'')) \<and>
   shown (preview_file (\<lambda>m. Some TypeError) (\<lambda>c. [(c, ())]) [str ''ID'', str ''ds'']) =
     Some (Error TypeError) \<and>
   missing_columns (auto_identify_columns [str ''ID'', str ''ds'', str ''N'', str ''di'']) = [] \<and>
   imported_points (preview_file (\<lambda>m. None) (\<lambda>c. [(c, ())]) [str ''ID'', str ''ds'', str ''N'', str ''di''])
     = [(str ''ID'', ())] \<and>
   map_of (current_column_mapping
       (preview_file (\<lambda>m. None) (\<lambda>c. [(c, ())]) [str ''ID'', str ''ds'', str ''N'', str ''di'']))
     (str ''Point ID'') = Some (Some (str ''ID''))"
proof -
  let ?none = "\<lambda>m :: (pystr \<times> pystr option) list. None :: py_error option"
  let ?err = "\<lambda>m :: (pystr \<times> pystr option) list. Some TypeError"
  let ?g = "\<lambda>c :: pystr. [(c, ())]"
  note a = incomplete_mapping [of "[str ''ID'', str ''ds'']" ?none ?g]
  note e = incomplete_mapping [of "[str ''ID'', str ''ds'']" ?err ?g]
  note b = incomplete_mapping [of "[str ''ID'', str ''ds'', str ''N'', str ''di'']" ?none ?g]
  have m1: "missing_columns (auto_identify_columns [str ''ID'', str ''ds'']) =
      [str ''Measured N-value'', str ''Layer thickness di(m)'']"
    using a [THEN conjunct2, THEN conjunct2, THEN conjunct1] by (simp only: spec_match_no_N_di)
  have m2: "missing_columns (auto_identify_columns [str ''ID'', str ''ds'', str ''N'', str ''di'']) = []"
    using b [THEN conjunct2, THEN conjunct2, THEN conjunct1] by (simp only: spec_match_complete)
  have p: "map_of (auto_identify_columns [str ''ID'', str ''ds'', str ''N'', str ''di'']) (str ''Point ID'')
      = Some (Some (str ''ID''))"
    unfolding field_lookups by (simp add: match_eval text_eval)
  have i2: "imported_points (preview_file ?none ?g [str ''ID'', str ''ds'', str ''N'', str ''di''])
     = [(str ''ID'', ())]"
    by (simp add: preview_file_def m2 p)
  have cm: "current_column_mapping (preview_file ?none ?g [str ''ID'', str ''ds'', str ''N'', str ''di''])
     = auto_identify_columns [str ''ID'', str ''ds'', str ''N'', str ''di'']"
    by (simp add: preview_file_def Let_def m2 p)
  have ne: "missing_columns (auto_identify_columns [str ''ID'', str ''ds'']) \<noteq> []"
    by (simp add: m1)
  note a4 = a [THEN conjunct2, THEN conjunct2, THEN conjunct2, THEN conjunct1, THEN mp, OF ne]
  note e4 = e [THEN conjunct2, THEN conjunct2, THEN conjunct2, THEN conjunct1, THEN mp, OF ne]
  from a4 have "imported_points (preview_file ?none ?g [str ''ID'', str ''ds'']) = []"
    by (rule conjunct1)
  moreover have "shown (preview_file ?none ?g [str ''ID'', str ''ds'']) =
     Some (Warning
       (str ''The following required columns were not identified, please check the table:''
        @ [10] @ str ''Measured N-value, Layer thickness di(m)''))"
  proof -
    from a4 have "shown (preview_file ?none ?g [str ''ID'', str ''ds'']) =
      Some (Warning
       (str ''The following required columns were not identified, please check the table:''
        @ [10] @ (str ''Measured N-value'' @
            concat (map (\<lambda>y. str '', '' @ y) [str ''Layer thickness di(m)'']))))"
      by (simp only: m1 list.case option.case)
    moreover have "str ''Measured N-value'' @
        concat (map (\<lambda>y. str '', '' @ y) [str ''Layer thickness di(m)'']) =
        str ''Measured N-value, Layer thickness di(m)''"
      by (simp add: str_def)
    ultimately show ?thesis by (simp only:)
  qed
  moreover from e4 have "shown (preview_file ?err ?g [str ''ID'', str ''ds'']) = Some (Error TypeError)"
    by simp
  ultimately show ?thesis using m1 m2 i2 p unfolding cm by blast
qed

end
